theory Spec2Isabelle
  imports Main
begin

section \<open>The data store\<close>

text \<open>
  The views of \<^verbatim>\<open>blog/views.py\<close> read and write four tables. A table is the list of
  its rows; a foreign key is the primary key of the row it refers to. Only the columns
  that \<^verbatim>\<open>views.py\<close> reads or writes are kept. A \<^verbatim>\<open>pub_date\<close> and the
  clock are points of time, counted as integers.

  The tables themselves are declared in \<^verbatim>\<open>blog/models.py\<close>. What the store
  guarantees about them (primary keys, slugs and usernames are unique; a primary key is a
  signed 64-bit integer, so below \<open>2 ^ 63\<close>) is not built into the types: a theorem
  that needs such a guarantee assumes it.
\<close>

type_synonym pk = nat
type_synonym datetime = int

record user =
  user_pk :: pk
  username :: string

record category =
  category_pk :: pk
  slug :: string
  category_is_published :: bool

record post =
  post_pk :: pk
  author_id :: pk
  category_id :: pk
  pub_date :: datetime
  is_published :: bool

record comment =
  comment_pk :: pk
  comment_text :: string
  comment_author_id :: pk
  comment_post_id :: pk
  created_at :: datetime

record db =
  users :: "user list"
  categories :: "category list"
  posts :: "post list"
  comments :: "comment list"

text \<open>
  \<^verbatim>\<open>request.user\<close> is either the anonymous user or a row of the user table;
  \<^verbatim>\<open>is_authenticated\<close> tells them apart.
\<close>

datatype request_user = AnonymousUser | AuthUser user

fun is_authenticated :: "request_user \<Rightarrow> bool" where
  "is_authenticated AnonymousUser = False"
| "is_authenticated (AuthUser u) = True"

datatype error = Http404 | MultipleObjectsReturned | ValueError | OverflowError

section \<open>Querysets\<close>

text \<open>
  A queryset of posts is the list of its rows. The rows of an annotated queryset carry
  the extra column \<^verbatim>\<open>comment_count\<close>, so the operations on querysets are written
  for every extension of the post record.

  \<^verbatim>\<open>Q\<close> objects are the lookups that \<^verbatim>\<open>views.py\<close> uses, combined with
  \<^verbatim>\<open>&\<close> and \<^verbatim>\<open>|\<close>. A lookup through a foreign key
  (\<^verbatim>\<open>category__is_published\<close>, \<^verbatim>\<open>category__slug\<close>,
  \<^verbatim>\<open>author__username\<close>) holds of a post when the row that the key refers to
  exists and has the value; a key that no row has stands for an empty reference, and no
  such lookup holds of it. \<open>post_category\<close> and \<open>post_author\<close> follow the key to its
  row.
\<close>

datatype Q =
    Q_author user
  | Q_is_published bool
  | Q_pub_date__lte datetime
  | Q_category__is_published bool
  | Q_category__slug string
  | Q_author__username string
  | Q_and Q Q
  | Q_or Q Q

definition post_category :: "db \<Rightarrow> 'a post_scheme \<Rightarrow> category option" where
  "post_category d p = find (\<lambda>c. category_pk c = category_id p) (categories d)"

definition post_author :: "db \<Rightarrow> 'a post_scheme \<Rightarrow> user option" where
  "post_author d p = find (\<lambda>u. user_pk u = author_id p) (users d)"

fun matches :: "db \<Rightarrow> Q \<Rightarrow> 'a post_scheme \<Rightarrow> bool" where
  "matches d (Q_author u) p = (author_id p = user_pk u)"
| "matches d (Q_is_published b) p = (is_published p = b)"
| "matches d (Q_pub_date__lte t) p = (pub_date p \<le> t)"
| "matches d (Q_category__is_published b) p =
     (case post_category d p of None \<Rightarrow> False | Some c \<Rightarrow> category_is_published c = b)"
| "matches d (Q_category__slug s) p =
     (case post_category d p of None \<Rightarrow> False | Some c \<Rightarrow> slug c = s)"
| "matches d (Q_author__username n) p =
     (case post_author d p of None \<Rightarrow> False | Some u \<Rightarrow> username u = n)"
| "matches d (Q_and a b) p = (matches d a p \<and> matches d b p)"
| "matches d (Q_or a b) p = (matches d a p \<or> matches d b p)"

definition queryset_filter :: "db \<Rightarrow> Q \<Rightarrow> 'a post_scheme list \<Rightarrow> 'a post_scheme list" where
  "queryset_filter d q queryset = filter (matches d q) queryset"

section \<open>The visibility filter\<close>

text \<open>
  \<^verbatim>\<open>timezone.now()\<close> reads the clock; each function that reads it takes the instant
  it reads as a parameter.
\<close>

definition get_published_posts :: "db \<Rightarrow> 'a post_scheme list \<Rightarrow> datetime \<Rightarrow> 'a post_scheme list" where
  "get_published_posts d queryset current_time =
     queryset_filter d
       (Q_and (Q_and (Q_is_published True) (Q_pub_date__lte current_time))
              (Q_category__is_published True))
       queryset"

text \<open>
  The parameter \<^verbatim>\<open>user\<close> defaults to \<^verbatim>\<open>None\<close>. In Python \<^verbatim>\<open>&\<close> binds
  tighter than \<^verbatim>\<open>|\<close>, so the filter of the authenticated branch is
  \<^verbatim>\<open>Q(author) | ((Q(is_published) & Q(pub_date__lte)) & Q(category__is_published))\<close>.
\<close>

fun get_visible_posts ::
  "db \<Rightarrow> 'a post_scheme list \<Rightarrow> request_user option \<Rightarrow> datetime \<Rightarrow> 'a post_scheme list" where
  "get_visible_posts d queryset (Some (AuthUser u)) now =
     queryset_filter d
       (Q_or (Q_author u)
          (Q_and (Q_and (Q_is_published True) (Q_pub_date__lte now))
                 (Q_category__is_published True)))
       queryset"
| "get_visible_posts d queryset user now = get_published_posts d queryset now"

text \<open>
  The publication conditions of a post at an instant: the post is published, its date
  is not in the future, and its category exists and is published.
\<close>

definition publicly_visible :: "db \<Rightarrow> datetime \<Rightarrow> 'a post_scheme \<Rightarrow> bool" where
  "publicly_visible d now p \<longleftrightarrow>
     is_published p \<and> pub_date p \<le> now \<and>
     (case post_category d p of None \<Rightarrow> False | Some c \<Rightarrow> category_is_published c)"

section \<open>The listing views\<close>

text \<open>
  \<^verbatim>\<open>annotate(comment_count=Count("comments"))\<close> adds to each post the number of
  comments that refer to it; it neither drops nor repeats a post.
\<close>

record annotated_post = post +
  comment_count :: nat

definition Count_comments :: "db \<Rightarrow> post \<Rightarrow> nat" where
  "Count_comments d p = length (filter (\<lambda>c. comment_post_id c = post_pk p) (comments d))"

definition get_annotated_posts :: "db \<Rightarrow> post list \<Rightarrow> annotated_post list" where
  "get_annotated_posts d queryset =
     map (\<lambda>p. \<lparr>post_pk = post_pk p, author_id = author_id p, category_id = category_id p,
               pub_date = pub_date p, is_published = is_published p,
               comment_count = Count_comments d p\<rparr>)
         queryset"

text \<open>
  \<^verbatim>\<open>order_by("-pub_date")\<close>: the latest date first. The store leaves the order of
  posts of one date open; the model keeps them in the order they had (a stable sort).
  A filter applied to an ordered queryset keeps the order.
\<close>

definition order_by_pub_date_desc :: "'a post_scheme list \<Rightarrow> 'a post_scheme list" where
  "order_by_pub_date_desc queryset = sort_key (\<lambda>p. - pub_date p) queryset"

definition paginate_by :: nat where
  "paginate_by = 10"

text \<open>
  \<^verbatim>\<open>Post.objects\<close> is the post table; \<^verbatim>\<open>select_related\<close> changes how rows are
  fetched, not which rows.
\<close>

definition PostListView_get_queryset :: "db \<Rightarrow> request_user \<Rightarrow> datetime \<Rightarrow> annotated_post list" where
  "PostListView_get_queryset d request_user now =
     (let queryset = posts d;
          queryset = get_annotated_posts d queryset;
          queryset = get_visible_posts d queryset (Some request_user) now
      in order_by_pub_date_desc queryset)"

text \<open>
  The views below read the clock a second time, after the call of the inherited
  \<^verbatim>\<open>get_queryset\<close> has read it once: \<open>now\<close> is the first reading, \<open>now'\<close> the
  second. Keyword arguments of \<^verbatim>\<open>filter\<close> are conjoined.
\<close>

definition HomePageView_get_queryset ::
  "db \<Rightarrow> request_user \<Rightarrow> datetime \<Rightarrow> datetime \<Rightarrow> annotated_post list" where
  "HomePageView_get_queryset d request_user now now' =
     (let queryset = PostListView_get_queryset d request_user now
      in queryset_filter d
           (Q_and (Q_and (Q_pub_date__lte now') (Q_is_published True))
                  (Q_category__is_published True))
           queryset)"

definition CategoryView_get_queryset ::
  "db \<Rightarrow> request_user \<Rightarrow> string \<Rightarrow> datetime \<Rightarrow> datetime \<Rightarrow> annotated_post list" where
  "CategoryView_get_queryset d request_user category_slug now now' =
     (let queryset = PostListView_get_queryset d request_user now
      in queryset_filter d
           (Q_and (Q_and (Q_pub_date__lte now') (Q_is_published True))
                  (Q_category__slug category_slug))
           queryset)"

definition ProfileView_get_queryset ::
  "db \<Rightarrow> request_user \<Rightarrow> string \<Rightarrow> datetime \<Rightarrow> annotated_post list" where
  "ProfileView_get_queryset d request_user name now =
     (let queryset = PostListView_get_queryset d request_user now
      in queryset_filter d (Q_author__username name) queryset)"

subsection \<open>What the framework does around them\<close>

text \<open>
  \<^verbatim>\<open>get_object_or_404\<close> fetches the one row that satisfies the lookup: no such row
  is \<^verbatim>\<open>Http404\<close>, several are \<^verbatim>\<open>MultipleObjectsReturned\<close>.
\<close>

definition get_object_or_404 :: "'a list \<Rightarrow> ('a \<Rightarrow> bool) \<Rightarrow> error + 'a" where
  "get_object_or_404 rows lookup =
     (case filter lookup rows of
        [] \<Rightarrow> Inl Http404
      | [r] \<Rightarrow> Inr r
      | _ \<Rightarrow> Inl MultipleObjectsReturned)"

text \<open>
  The paginator of a list view (no orphans, an empty first page allowed): there is always
  a page 1; page \<open>n\<close> holds the rows from position \<open>(n - 1) * page_size\<close> on, at most
  \<open>page_size\<close> of them; a page number outside \<open>1 .. num_pages\<close> is \<^verbatim>\<open>Http404\<close>.
\<close>

definition num_pages :: "nat \<Rightarrow> nat \<Rightarrow> nat" where
  "num_pages count page_size = (max 1 count + page_size - 1) div page_size"

definition paginate_queryset :: "'a list \<Rightarrow> nat \<Rightarrow> nat \<Rightarrow> error + 'a list" where
  "paginate_queryset queryset page_size page =
     (if page < 1 \<or> num_pages (length queryset) page_size < page then Inl Http404
      else Inr (take page_size (drop ((page - 1) * page_size) queryset)))"

datatype url = Index | PostDetail pk | Profile string | Login

datatype 'a response = Raise error | HttpResponseRedirect url | TemplateResponse 'a

text \<open>
  A \<^verbatim>\<open>GET\<close> request to a list view: the queryset, then the context (the page of the
  queryset that the request asks for, and what the view adds to it), then the rendered
  page. An exception on the way is the response.
\<close>

definition HomePageView_get ::
  "db \<Rightarrow> request_user \<Rightarrow> nat \<Rightarrow> datetime \<Rightarrow> datetime \<Rightarrow> annotated_post list response" where
  "HomePageView_get d request_user page now now' =
     (case paginate_queryset (HomePageView_get_queryset d request_user now now') paginate_by page of
        Inl e \<Rightarrow> Raise e
      | Inr object_list \<Rightarrow> TemplateResponse object_list)"

definition CategoryView_get ::
  "db \<Rightarrow> request_user \<Rightarrow> string \<Rightarrow> nat \<Rightarrow> datetime \<Rightarrow> datetime
   \<Rightarrow> (annotated_post list \<times> category) response" where
  "CategoryView_get d request_user category_slug page now now' =
     (case paginate_queryset (CategoryView_get_queryset d request_user category_slug now now')
             paginate_by page of
        Inl e \<Rightarrow> Raise e
      | Inr object_list \<Rightarrow>
          (case get_object_or_404 (categories d)
                  (\<lambda>c. slug c = category_slug \<and> category_is_published c = True) of
             Inl e \<Rightarrow> Raise e
           | Inr category \<Rightarrow> TemplateResponse (object_list, category)))"


section \<open>The detail view\<close>

text \<open>
  The author of a post or comment and the post of a comment are never empty, and the
  store keeps these keys valid, so \<^verbatim>\<open>post.author\<close> is the user row whose primary
  key is \<^verbatim>\<open>author_id\<close>. Two rows of a table are equal when their primary keys are;
  the anonymous user is equal to no row. \<open>same_user a u\<close> is
  \<^verbatim>\<open>author == request.user\<close> for the author with primary key \<open>a\<close>.
\<close>

fun same_user :: "pk \<Rightarrow> request_user \<Rightarrow> bool" where
  "same_user a AnonymousUser = False"
| "same_user a (AuthUser u) = (a = user_pk u)"

text \<open>
  The context of the detail page: the post and its comments (and a blank comment form,
  which holds no data).
\<close>

definition PostDetailView_get_context_data :: "db \<Rightarrow> post \<Rightarrow> post \<times> comment list" where
  "PostDetailView_get_context_data d object =
     (object, filter (\<lambda>c. comment_post_id c = post_pk object) (comments d))"

text \<open>
  A \<^verbatim>\<open>GET\<close> request that has passed \<^verbatim>\<open>dispatch\<close> is served by the generic detail
  view: it fetches the post by its primary key once more and renders the context. The
  identifier of the request is taken here, and in the update and delete views, as a key
  of the store (\<open>pk\<close>); what a number beyond the keys of the store does to a lookup is
  written out for the comment-create view, whose property speaks of every identifier.
\<close>

definition DetailView_get :: "db \<Rightarrow> pk \<Rightarrow> (post \<times> comment list) response" where
  "DetailView_get d post_id =
     (case get_object_or_404 (posts d) (\<lambda>p. post_pk p = post_id) of
        Inl e \<Rightarrow> Raise e
      | Inr object \<Rightarrow> TemplateResponse (PostDetailView_get_context_data d object))"

definition PostDetailView_dispatch ::
  "db \<Rightarrow> request_user \<Rightarrow> pk \<Rightarrow> (post \<times> comment list) response" where
  "PostDetailView_dispatch d request_user post_id =
     (case get_object_or_404 (posts d) (\<lambda>p. post_pk p = post_id) of
        Inl e \<Rightarrow> Raise e
      | Inr post \<Rightarrow>
          if \<not> is_published post \<and> \<not> same_user (author_id post) request_user
          then Raise Http404
          else DetailView_get d post_id)"

section \<open>The views that change the store\<close>

text \<open>
  A view that may change the store returns its response and the store after the request.
  \<^verbatim>\<open>LoginRequiredMixin\<close> sends a viewer who is not authenticated to the login page
  and lets the others through to the handler of the request.
\<close>

definition LoginRequiredMixin_dispatch ::
  "request_user \<Rightarrow> (db \<Rightarrow> 'a response \<times> db) \<Rightarrow> db \<Rightarrow> 'a response \<times> db" where
  "LoginRequiredMixin_dispatch request_user handler d =
     (if \<not> is_authenticated request_user then (HttpResponseRedirect Login, d)
      else handler d)"

text \<open>
  The update and delete views define \<^verbatim>\<open>dispatch\<close> themselves, so their check runs
  first; \<^verbatim>\<open>super().dispatch\<close> is the login check followed by the generic view's
  handling of the request (the form page on \<^verbatim>\<open>GET\<close>; validation, the change of
  the row and the redirect to the success URL on \<^verbatim>\<open>POST\<close>). The generic handling
  is not part of \<^verbatim>\<open>views.py\<close> and uses the forms of \<^verbatim>\<open>forms.py\<close>; it is the
  parameter \<open>handler\<close>, any function from the store to a response and a store.
\<close>

definition PostUpdateView_dispatch ::
  "(db \<Rightarrow> 'a response \<times> db) \<Rightarrow> db \<Rightarrow> request_user \<Rightarrow> pk \<Rightarrow> 'a response \<times> db" where
  "PostUpdateView_dispatch handler d request_user post_id =
     (case get_object_or_404 (posts d) (\<lambda>p. post_pk p = post_id) of
        Inl e \<Rightarrow> (Raise e, d)
      | Inr instance \<Rightarrow>
          if \<not> same_user (author_id instance) request_user
          then (HttpResponseRedirect (PostDetail (post_pk instance)), d)
          else LoginRequiredMixin_dispatch request_user handler d)"

definition PostDeleteView_dispatch ::
  "(db \<Rightarrow> 'a response \<times> db) \<Rightarrow> db \<Rightarrow> request_user \<Rightarrow> pk \<Rightarrow> 'a response \<times> db" where
  "PostDeleteView_dispatch handler d request_user post_id =
     (case get_object_or_404 (posts d) (\<lambda>p. post_pk p = post_id) of
        Inl e \<Rightarrow> (Raise e, d)
      | Inr instance \<Rightarrow>
          if \<not> same_user (author_id instance) request_user
          then (HttpResponseRedirect Index, d)
          else LoginRequiredMixin_dispatch request_user handler d)"

text \<open>
  \<^verbatim>\<open>CommentUpdateView\<close> and \<^verbatim>\<open>CommentDeleteView\<close> share the \<^verbatim>\<open>dispatch\<close> of
  \<^verbatim>\<open>CommentChangeView\<close>. \<^verbatim>\<open>instance.post.id\<close> is the key that the comment
  stores, the store keeping foreign keys valid.
\<close>

definition CommentChangeView_dispatch ::
  "(db \<Rightarrow> 'a response \<times> db) \<Rightarrow> db \<Rightarrow> request_user \<Rightarrow> pk \<Rightarrow> 'a response \<times> db" where
  "CommentChangeView_dispatch handler d request_user comment_id =
     (case get_object_or_404 (comments d) (\<lambda>c. comment_pk c = comment_id) of
        Inl e \<Rightarrow> (Raise e, d)
      | Inr instance \<Rightarrow>
          if \<not> same_user (comment_author_id instance) request_user
          then (HttpResponseRedirect (PostDetail (comment_post_id instance)), d)
          else LoginRequiredMixin_dispatch request_user handler d)"

subsection \<open>Creating a comment\<close>






section \<open>Sample data\<close>

text \<open>
  A small store on which the theorems below are run: two users, a published and an
  unpublished category, a public post of each user, a published post of Alice in the
  unpublished category, an unpublished post of Bob dated in the future, and a comment of
  Bob on Alice's public post.
\<close>

definition alice :: user where
  "alice = \<lparr>user_pk = 1, username = ''alice''\<rparr>"

definition bob :: user where
  "bob = \<lparr>user_pk = 2, username = ''bob''\<rparr>"

definition travel_category :: category where
  "travel_category = \<lparr>category_pk = 1, slug = ''travel'', category_is_published = True\<rparr>"

definition hidden_category :: category where
  "hidden_category = \<lparr>category_pk = 2, slug = ''hidden'', category_is_published = False\<rparr>"

definition alice_post :: post where
  "alice_post = \<lparr>post_pk = 1, author_id = 1, category_id = 1, pub_date = 5, is_published = True\<rparr>"

definition alice_hidden_post :: post where
  "alice_hidden_post =
     \<lparr>post_pk = 2, author_id = 1, category_id = 2, pub_date = 7, is_published = True\<rparr>"

definition bob_draft :: post where
  "bob_draft = \<lparr>post_pk = 3, author_id = 2, category_id = 2, pub_date = 50, is_published = False\<rparr>"

definition bob_post :: post where
  "bob_post = \<lparr>post_pk = 4, author_id = 2, category_id = 1, pub_date = 8, is_published = True\<rparr>"

definition bob_comment :: comment where
  "bob_comment = \<lparr>comment_pk = 1, comment_text = ''first'', comment_author_id = 2,
                   comment_post_id = 1, created_at = 6\<rparr>"

definition sample_db :: db where
  "sample_db = \<lparr>users = [alice, bob],
                categories = [travel_category, hidden_category],
                posts = [alice_post, alice_hidden_post, bob_draft, bob_post],
                comments = [bob_comment]\<rparr>"


text \<open>
  Handlers that would empty a table, to see that a refused request does not reach them,
  and a comment form that strips leading blanks and refuses an empty text.
\<close>

definition wipe_posts :: "db \<Rightarrow> unit response \<times> db" where
  "wipe_posts d = (HttpResponseRedirect Index, d\<lparr>posts := []\<rparr>)"

definition wipe_comments :: "db \<Rightarrow> unit response \<times> db" where
  "wipe_comments d = (HttpResponseRedirect Index, d\<lparr>comments := []\<rparr>)"


lemmas sample_defs = sample_db_def alice_def bob_def travel_category_def hidden_category_def
  alice_post_def alice_hidden_post_def bob_draft_def bob_post_def bob_comment_def

section \<open>Facts about querysets and lookups\<close>

lemma matches_published:
  "matches d (Q_and (Q_and (Q_is_published True) (Q_pub_date__lte t))
                    (Q_category__is_published True)) p
   = publicly_visible d t p"
  by (auto simp: publicly_visible_def split: option.splits)

lemma matches_narrowing:
  "matches d (Q_and (Q_and (Q_pub_date__lte t) (Q_is_published True))
                    (Q_category__is_published True)) p
   = publicly_visible d t p"
  by (auto simp: publicly_visible_def split: option.splits)

lemma get_published_posts_filter:
  "get_published_posts d queryset t = filter (publicly_visible d t) queryset"
  unfolding get_published_posts_def queryset_filter_def
  by (rule filter_cong) (simp_all only: matches_published)

lemma get_visible_posts_filter:
  "get_visible_posts d queryset user t =
     filter (\<lambda>p. (case user of Some (AuthUser u) \<Rightarrow> author_id p = user_pk u | _ \<Rightarrow> False)
                 \<or> publicly_visible d t p) queryset"
proof (cases user)
  case None
  then show ?thesis by (simp add: get_published_posts_filter)
next
  case (Some v)
  show ?thesis
  proof (cases v)
    case AnonymousUser
    with Some show ?thesis by (simp add: get_published_posts_filter)
  next
    case (AuthUser u)
    have "get_visible_posts d queryset (Some (AuthUser u)) t =
          filter (\<lambda>p. author_id p = user_pk u \<or> publicly_visible d t p) queryset"
      unfolding get_visible_posts.simps queryset_filter_def
      by (rule filter_cong) (simp_all add: publicly_visible_def split: option.splits)
    with Some AuthUser show ?thesis by simp
  qed
qed

text \<open>Filtering an ordered queryset is ordering the filtered one.\<close>

lemma queryset_filter_order_by:
  "queryset_filter d q (order_by_pub_date_desc queryset)
   = order_by_pub_date_desc (queryset_filter d q queryset)"
  by (simp add: queryset_filter_def order_by_pub_date_desc_def filter_sort)

lemma set_order_by [simp]: "set (order_by_pub_date_desc xs) = set xs"
  by (simp add: order_by_pub_date_desc_def)


text \<open>The querysets of the four list views, as one filter of the annotated post table.\<close>

lemma PostListView_queryset:
  "PostListView_get_queryset d v t =
     order_by_pub_date_desc
       (filter (\<lambda>p. same_user (author_id p) v \<or> publicly_visible d t p)
          (get_annotated_posts d (posts d)))"
  by (cases v) (simp_all add: PostListView_get_queryset_def get_visible_posts_filter)

lemma HomePageView_queryset:
  "HomePageView_get_queryset d v t t' =
     order_by_pub_date_desc
       (filter (\<lambda>p. (same_user (author_id p) v \<or> publicly_visible d t p) \<and>
                    publicly_visible d t' p)
          (get_annotated_posts d (posts d)))"
  unfolding HomePageView_get_queryset_def Let_def queryset_filter_order_by PostListView_queryset
  unfolding queryset_filter_def filter_filter
  by (rule arg_cong[where f = order_by_pub_date_desc], rule filter_cong)
     (auto simp only: matches_narrowing)

lemma CategoryView_queryset:
  "CategoryView_get_queryset d v s t t' =
     order_by_pub_date_desc
       (filter (\<lambda>p. (same_user (author_id p) v \<or> publicly_visible d t p) \<and>
                    pub_date p \<le> t' \<and> is_published p \<and>
                    (case post_category d p of None \<Rightarrow> False | Some c \<Rightarrow> slug c = s))
          (get_annotated_posts d (posts d)))"
  unfolding CategoryView_get_queryset_def Let_def queryset_filter_order_by PostListView_queryset
  unfolding queryset_filter_def filter_filter
  by (rule arg_cong[where f = order_by_pub_date_desc], rule filter_cong) auto

lemma ProfileView_queryset:
  "ProfileView_get_queryset d v name t =
     order_by_pub_date_desc
       (filter (\<lambda>p. (case post_author d p of None \<Rightarrow> False | Some a \<Rightarrow> username a = name) \<and>
                    (same_user (author_id p) v \<or> publicly_visible d t p))
          (get_annotated_posts d (posts d)))"
  unfolding ProfileView_get_queryset_def Let_def queryset_filter_order_by PostListView_queryset
  unfolding queryset_filter_def filter_filter
  by (rule arg_cong[where f = order_by_pub_date_desc], rule filter_cong) auto

text \<open>Pages and lookups.\<close>

lemma paginate_queryset_subset:
  "paginate_queryset queryset n page = Inr object_list \<Longrightarrow> set object_list \<subseteq> set queryset"
  by (auto simp: paginate_queryset_def split: if_splits dest: in_set_takeD in_set_dropD)



lemma get_object_or_404_Inr:
  assumes "get_object_or_404 rows lookup = Inr r"
  shows "r \<in> set rows \<and> lookup r"
proof -
  from assms have "filter lookup rows = [r]"
    by (auto simp: get_object_or_404_def split: list.splits)
  then have "r \<in> set (filter lookup rows)" by simp
  then show ?thesis by simp
qed

text \<open>In a table with distinct keys, the lookup by the key of a row finds that row.\<close>

lemma get_object_or_404_unique:
  assumes "distinct (map key rows)" and "r \<in> set rows"
  shows "get_object_or_404 rows (\<lambda>x. key x = key r) = Inr r"
proof -
  from assms have "filter (\<lambda>x. key x = key r) rows = [r]"
    by (induction rows) (auto simp: filter_empty_conv image_iff)
  then show ?thesis by (simp add: get_object_or_404_def)
qed

lemma find_user_by_pk:
  assumes "distinct (map user_pk us)" and "u \<in> set us"
  shows "find (\<lambda>a. user_pk a = user_pk u) us = Some u"
  using assms by (induction us) auto

lemma post_category_in_table:
  "post_category d p = Some c \<Longrightarrow> c \<in> set (categories d)"
  by (auto simp: post_category_def find_Some_iff)

text \<open>
  An annotated row without its annotation is the post it was made from
  (\<open>post.truncate\<close> drops the extra column), and the operations on querysets do not
  look at the annotation.
\<close>

lemma truncate_annotated:
  "map post.truncate (get_annotated_posts d queryset) = queryset"
  by (induction queryset) (simp_all add: get_annotated_posts_def post.truncate_def)

lemma comment_count_annotated:
  "map comment_count (get_annotated_posts d queryset) = map (Count_comments d) queryset"
  by (simp add: get_annotated_posts_def)

lemma truncate_fields [simp]:
  "post_pk (post.truncate p) = post_pk p" "author_id (post.truncate p) = author_id p"
  "category_id (post.truncate p) = category_id p" "pub_date (post.truncate p) = pub_date p"
  "is_published (post.truncate p) = is_published p"
  by (simp_all add: post.truncate_def)

lemma post_author_truncate [simp]: "post_author d (post.truncate p) = post_author d p"
  by (simp add: post_author_def)

lemma publicly_visible_truncate [simp]:
  "publicly_visible d t (post.truncate p) = publicly_visible d t p"
  by (simp add: publicly_visible_def post_category_def)

lemma filter_truncate:
  assumes "\<And>p. P (post.truncate p) = Q p"
  shows "map post.truncate (filter Q xs) = filter P (map post.truncate xs)"
  using assms by (induction xs) simp_all

lemma insort_key_map:
  "insort_key f (g x) (map g xs) = map g (insort_key (\<lambda>y. f (g y)) x xs)"
  by (induction xs) simp_all

lemma sort_key_map:
  "sort_key f (map g xs) = map g (sort_key (\<lambda>y. f (g y)) xs)"
  by (induction xs) (simp_all add: insort_key_map)

lemma order_by_truncate:
  "map post.truncate (order_by_pub_date_desc xs) = order_by_pub_date_desc (map post.truncate xs)"
  by (simp add: order_by_pub_date_desc_def sort_key_map)


section \<open>Properties of the visibility filter\<close>

text \<open>
  C1. For an authenticated viewer, the visibility filter keeps exactly the posts of the
  candidate queryset that the viewer wrote or that are published, not dated in the
  future and in a published category. The author alternative stands alone: it is not
  conjoined with any publication condition.
\<close>

theorem get_visible_posts_authenticated:
  "get_visible_posts d queryset (Some (AuthUser v)) now =
     filter (\<lambda>p. author_id p = user_pk v \<or>
                 (is_published p \<and> pub_date p \<le> now \<and>
                  (case post_category d p of None \<Rightarrow> False
                   | Some c \<Rightarrow> category_is_published c)))
            queryset"
  unfolding get_visible_posts.simps queryset_filter_def
  by (rule filter_cong) (auto split: option.splits)

text \<open>
  C2. For a viewer that is not authenticated (no user at all, or the anonymous user), the
  visibility filter keeps exactly the posts of the candidate queryset that are published,
  not dated in the future and in a published category.
\<close>

theorem get_visible_posts_anonymous:
  "get_visible_posts d queryset None now =
     filter (\<lambda>p. is_published p \<and> pub_date p \<le> now \<and>
                 (case post_category d p of None \<Rightarrow> False
                  | Some c \<Rightarrow> category_is_published c))
            queryset
   \<and> get_visible_posts d queryset (Some AnonymousUser) now =
     filter (\<lambda>p. is_published p \<and> pub_date p \<le> now \<and>
                 (case post_category d p of None \<Rightarrow> False
                  | Some c \<Rightarrow> category_is_published c))
            queryset"
proof -
  have "get_published_posts d queryset now =
     filter (\<lambda>p. is_published p \<and> pub_date p \<le> now \<and>
                 (case post_category d p of None \<Rightarrow> False
                  | Some c \<Rightarrow> category_is_published c))
            queryset"
    unfolding get_published_posts_def queryset_filter_def
    by (rule filter_cong) (auto split: option.splits)
  then show ?thesis by simp
qed

section \<open>Properties of the listings\<close>

text \<open>
  C3. Whoever the viewer is, a page rendered by the home listing or by the category
  listing shows only posts whose category is published. The queryset of the category
  listing does keep a viewer's own published post of an unpublished category (see
  \<open>CategoryView_queryset_of_author\<close> below), but then the lookup of the category in
  \<^verbatim>\<open>get_context_data\<close> ends the request with \<^verbatim>\<open>Http404\<close> and nothing is
  rendered. Slugs of categories are unique in the store.
\<close>

theorem listings_hide_unpublished_categories:
  "(\<forall>object_list. HomePageView_get d v page now now' = TemplateResponse object_list \<longrightarrow>
      (\<forall>p \<in> set object_list. \<exists>c. post_category d p = Some c \<and> category_is_published c))
   \<and> (distinct (map slug (categories d)) \<longrightarrow>
      (\<forall>object_list category.
         CategoryView_get d v s page now now' = TemplateResponse (object_list, category) \<longrightarrow>
         (\<forall>p \<in> set object_list. \<exists>c. post_category d p = Some c \<and> category_is_published c)))"
proof (intro conjI allI impI ballI)
  fix object_list p
  assume "HomePageView_get d v page now now' = TemplateResponse object_list"
    and p: "p \<in> set object_list"
  then have "paginate_queryset (HomePageView_get_queryset d v now now') paginate_by page
             = Inr object_list"
    by (auto simp: HomePageView_get_def split: sum.splits)
  with p have "p \<in> set (HomePageView_get_queryset d v now now')"
    using paginate_queryset_subset by blast
  then have "publicly_visible d now' p"
    by (simp add: HomePageView_queryset)
  then show "\<exists>c. post_category d p = Some c \<and> category_is_published c"
    by (auto simp: publicly_visible_def split: option.splits)
next
  fix object_list category p
  assume dist: "distinct (map slug (categories d))"
    and resp: "CategoryView_get d v s page now now' = TemplateResponse (object_list, category)"
    and p: "p \<in> set object_list"
  from resp have page:
    "paginate_queryset (CategoryView_get_queryset d v s now now') paginate_by page
     = Inr object_list"
    and cat: "get_object_or_404 (categories d)
                (\<lambda>c. slug c = s \<and> category_is_published c = True) = Inr category"
    by (auto simp: CategoryView_get_def split: sum.splits)
  have category: "category \<in> set (categories d)" "slug category = s"
    "category_is_published category"
    using get_object_or_404_Inr[OF cat] by auto
  from page p have "p \<in> set (CategoryView_get_queryset d v s now now')"
    using paginate_queryset_subset by blast
  then obtain c where c: "post_category d p = Some c" "slug c = s"
    by (auto simp: CategoryView_queryset split: option.splits)
  then have "c \<in> set (categories d)" by (simp add: post_category_in_table)
  with dist category c have "c = category"
    by (metis distinct_map inj_onD)
  with c category show "\<exists>c. post_category d p = Some c \<and> category_is_published c" by simp
qed

theorem listings_hide_unpublished_categories_witness:
  "HomePageView_get sample_db (AuthUser alice) 1 10 10
     = TemplateResponse (get_annotated_posts sample_db [bob_post, alice_post])
   \<and> list_all (\<lambda>p. \<exists>c. post_category sample_db p = Some c \<and> category_is_published c)
       (get_annotated_posts sample_db [bob_post, alice_post])
   \<and> CategoryView_get sample_db (AuthUser alice) ''travel'' 1 10 10
     = TemplateResponse (get_annotated_posts sample_db [bob_post, alice_post], travel_category)
   \<and> CategoryView_get sample_db (AuthUser alice) ''hidden'' 1 10 10 = Raise Http404"
proof -
  have home: "HomePageView_get sample_db (AuthUser alice) 1 10 10
     = TemplateResponse (get_annotated_posts sample_db [bob_post, alice_post])"
    by code_simp
  have travel: "CategoryView_get sample_db (AuthUser alice) ''travel'' 1 10 10
     = TemplateResponse (get_annotated_posts sample_db [bob_post, alice_post], travel_category)"
    by code_simp
  have hidden: "CategoryView_get sample_db (AuthUser alice) ''hidden'' 1 10 10 = Raise Http404"
    by code_simp
  have slugs: "distinct (map slug (categories sample_db))"
    by (simp add: sample_defs)
  from home travel slugs
    listings_hide_unpublished_categories[of sample_db "AuthUser alice" 1 10 10 "''travel''"]
  have "\<forall>p \<in> set (get_annotated_posts sample_db [bob_post, alice_post]).
          \<exists>c. post_category sample_db p = Some c \<and> category_is_published c"
    by blast
  with home travel hidden show ?thesis
    by (simp only: list_all_iff simp_thms)
qed

text \<open>
  The queryset of the category listing by itself: for the author it holds the published
  post of the unpublished category.
\<close>

lemma CategoryView_queryset_of_author:
  "CategoryView_get_queryset sample_db (AuthUser alice) ''hidden'' 10 10
   = get_annotated_posts sample_db [alice_hidden_post]"
  by code_simp




text \<open>
  C8. The profile listing for a username holds exactly the posts of the store whose
  author has that username and that the viewer may see, that is, the viewer's own posts
  and the posts that are published, not dated in the future and in a published category;
  each is listed once, with the number of its comments. So a viewer who is anonymous, or a
  user of the store with another username, finds only such public posts in it. Primary
  keys of users are unique in the store.
\<close>

theorem profile_listing:
  "map post.truncate (ProfileView_get_queryset d v name now) =
     order_by_pub_date_desc
       (filter (\<lambda>p. (case post_author d p of None \<Rightarrow> False | Some a \<Rightarrow> username a = name) \<and>
                    (same_user (author_id p) v \<or>
                     (is_published p \<and> pub_date p \<le> now \<and>
                      (case post_category d p of None \<Rightarrow> False
                       | Some c \<Rightarrow> category_is_published c))))
          (posts d))
   \<and> map comment_count (ProfileView_get_queryset d v name now) =
     map (Count_comments d) (map post.truncate (ProfileView_get_queryset d v name now))
   \<and> (distinct (map user_pk (users d)) \<longrightarrow>
      (v = AnonymousUser \<or> (\<exists>u. v = AuthUser u \<and> u \<in> set (users d) \<and> username u \<noteq> name)) \<longrightarrow>
      (\<forall>p \<in> set (ProfileView_get_queryset d v name now).
         is_published p \<and> pub_date p \<le> now \<and>
         (\<exists>c. post_category d p = Some c \<and> category_is_published c)))"
proof -
  let ?shown = "\<lambda>p :: post. (case post_author d p of None \<Rightarrow> False | Some a \<Rightarrow> username a = name) \<and>
                    (same_user (author_id p) v \<or> publicly_visible d now p)"
  have "map post.truncate (ProfileView_get_queryset d v name now)
        = order_by_pub_date_desc (filter ?shown (posts d))"
    unfolding ProfileView_queryset order_by_truncate
    by (subst filter_truncate[where P = ?shown]) (simp_all add: truncate_annotated)
  then have posts: "map post.truncate (ProfileView_get_queryset d v name now) =
     order_by_pub_date_desc
       (filter (\<lambda>p. (case post_author d p of None \<Rightarrow> False | Some a \<Rightarrow> username a = name) \<and>
                    (same_user (author_id p) v \<or>
                     (is_published p \<and> pub_date p \<le> now \<and>
                      (case post_category d p of None \<Rightarrow> False
                       | Some c \<Rightarrow> category_is_published c))))
          (posts d))"
    by (simp add: publicly_visible_def)
  have annotated: "\<exists>rows. queryset = get_annotated_posts d rows"
    if "set queryset \<subseteq> set (get_annotated_posts d (posts d))" for queryset
    using that
  proof (induction queryset)
    case Nil
    show ?case by (rule exI[of _ "[]"]) (simp add: get_annotated_posts_def)
  next
    case (Cons r queryset)
    then obtain rows where "queryset = get_annotated_posts d rows" by auto
    moreover from Cons.prems obtain p where "r = hd (get_annotated_posts d [p])"
      by (auto simp: get_annotated_posts_def)
    ultimately have "r # queryset = get_annotated_posts d (p # rows)"
      by (simp add: get_annotated_posts_def)
    then show ?case by blast
  qed
  have "set (ProfileView_get_queryset d v name now) \<subseteq> set (get_annotated_posts d (posts d))"
    by (auto simp: ProfileView_queryset)
  then obtain rows where rows: "ProfileView_get_queryset d v name now = get_annotated_posts d rows"
    using annotated by blast
  have counts: "map comment_count (ProfileView_get_queryset d v name now) =
     map (Count_comments d) (map post.truncate (ProfileView_get_queryset d v name now))"
    unfolding rows by (simp add: truncate_annotated comment_count_annotated)
  have public: "is_published p \<and> pub_date p \<le> now \<and>
             (\<exists>c. post_category d p = Some c \<and> category_is_published c)"
    if dist: "distinct (map user_pk (users d))"
      and other: "v = AnonymousUser \<or>
                (\<exists>u. v = AuthUser u \<and> u \<in> set (users d) \<and> username u \<noteq> name)"
      and mem: "p \<in> set (ProfileView_get_queryset d v name now)" for p
  proof -
    from mem have auth: "case post_author d p of None \<Rightarrow> False | Some a \<Rightarrow> username a = name"
      and vis: "same_user (author_id p) v \<or> publicly_visible d now p"
      by (simp_all add: ProfileView_queryset)
    have "\<not> same_user (author_id p) v"
    proof
      assume same: "same_user (author_id p) v"
      then obtain u where v: "v = AuthUser u" and key: "author_id p = user_pk u"
        by (cases v) auto
      with other have "u \<in> set (users d)" and name: "username u \<noteq> name" by auto
      with dist key have "post_author d p = Some u"
        by (simp add: post_author_def find_user_by_pk)
      with auth name show False by simp
    qed
    with vis have "publicly_visible d now p" by simp
    then show ?thesis
      by (auto simp: publicly_visible_def split: option.splits)
  qed
  then have "distinct (map user_pk (users d)) \<longrightarrow>
      (v = AnonymousUser \<or> (\<exists>u. v = AuthUser u \<and> u \<in> set (users d) \<and> username u \<noteq> name)) \<longrightarrow>
      (\<forall>p \<in> set (ProfileView_get_queryset d v name now).
         is_published p \<and> pub_date p \<le> now \<and>
         (\<exists>c. post_category d p = Some c \<and> category_is_published c))"
    by blast
  with posts counts show ?thesis by (intro conjI)
qed

theorem profile_listing_witness:
  "map post.truncate (ProfileView_get_queryset sample_db (AuthUser alice) ''bob'' 10)
     = [bob_post]
   \<and> list_all (\<lambda>p. is_published p \<and> pub_date p \<le> 10 \<and>
                   (\<exists>c. post_category sample_db p = Some c \<and> category_is_published c))
       (ProfileView_get_queryset sample_db (AuthUser alice) ''bob'' 10)
   \<and> map post.truncate (ProfileView_get_queryset sample_db AnonymousUser ''bob'' 10)
     = [bob_post]
   \<and> map post.truncate (ProfileView_get_queryset sample_db (AuthUser bob) ''bob'' 10)
     = [bob_draft, bob_post]
   \<and> map comment_count (ProfileView_get_queryset sample_db (AuthUser alice) ''alice'' 10)
     = [0, 1]"
proof -
  have listings:
    "map post.truncate (ProfileView_get_queryset sample_db (AuthUser alice) ''bob'' 10)
     = [bob_post]"
    "map post.truncate (ProfileView_get_queryset sample_db AnonymousUser ''bob'' 10)
     = [bob_post]"
    "map post.truncate (ProfileView_get_queryset sample_db (AuthUser bob) ''bob'' 10)
     = [bob_draft, bob_post]"
    "map comment_count (ProfileView_get_queryset sample_db (AuthUser alice) ''alice'' 10)
     = [0, 1]"
    by code_simp+
  have keys: "distinct (map user_pk (users sample_db))"
    and other: "alice \<in> set (users sample_db)" "username alice \<noteq> ''bob''"
    by (simp_all add: sample_defs)
  from keys other profile_listing[of sample_db "AuthUser alice" "''bob''" 10]
  have "\<forall>p \<in> set (ProfileView_get_queryset sample_db (AuthUser alice) ''bob'' 10).
          is_published p \<and> pub_date p \<le> 10 \<and>
          (\<exists>c. post_category sample_db p = Some c \<and> category_is_published c)"
    by blast
  then have "list_all (\<lambda>p. is_published p \<and> pub_date p \<le> 10 \<and>
                   (\<exists>c. post_category sample_db p = Some c \<and> category_is_published c))
       (ProfileView_get_queryset sample_db (AuthUser alice) ''bob'' 10)"
    by (simp only: list_all_iff)
  with listings show ?thesis by (simp only: simp_thms)
qed

text \<open>
  C9. The home listing holds exactly the posts of the store that are public at the second
  reading of the clock and that are either dated not after the first reading or the
  viewer's own. So when both readings are one instant the listing is the same for every
  viewer, anonymous or authenticated: the second filter absorbs the author alternative.
  When the second reading is later than the first, the listings of two viewers still
  agree on every post dated not after the first reading; they can differ only in the
  viewers' own posts dated between the readings.
\<close>

theorem home_listing_by_viewer:
  "map post.truncate (HomePageView_get_queryset d v now now') =
     order_by_pub_date_desc
       (filter (\<lambda>p. publicly_visible d now' p \<and> (pub_date p \<le> now \<or> same_user (author_id p) v))
          (posts d))
   \<and> HomePageView_get_queryset d v now now = HomePageView_get_queryset d v2 now now
   \<and> filter (\<lambda>p. pub_date p \<le> now) (HomePageView_get_queryset d v now now')
     = filter (\<lambda>p. pub_date p \<le> now) (HomePageView_get_queryset d v2 now now')"
proof (intro conjI)
  let ?shown = "\<lambda>p :: post. (same_user (author_id p) v \<or> publicly_visible d now p) \<and>
                            publicly_visible d now' p"
  have "map post.truncate (HomePageView_get_queryset d v now now')
        = order_by_pub_date_desc (filter ?shown (posts d))"
    unfolding HomePageView_queryset order_by_truncate
    by (subst filter_truncate[where P = ?shown]) (simp_all add: truncate_annotated)
  also have "filter ?shown (posts d)
        = filter (\<lambda>p. publicly_visible d now' p \<and>
                      (pub_date p \<le> now \<or> same_user (author_id p) v)) (posts d)"
    by (rule filter_cong) (auto simp: publicly_visible_def)
  finally show "map post.truncate (HomePageView_get_queryset d v now now') =
     order_by_pub_date_desc
       (filter (\<lambda>p. publicly_visible d now' p \<and> (pub_date p \<le> now \<or> same_user (author_id p) v))
          (posts d))" .
next
  have "HomePageView_get_queryset d u now now =
        order_by_pub_date_desc
          (filter (publicly_visible d now) (get_annotated_posts d (posts d)))" for u
    unfolding HomePageView_queryset
    by (rule arg_cong[where f = order_by_pub_date_desc], rule filter_cong) auto
  then show "HomePageView_get_queryset d v now now = HomePageView_get_queryset d v2 now now"
    by simp
next
  have "filter (\<lambda>p. pub_date p \<le> now) (HomePageView_get_queryset d u now now') =
        order_by_pub_date_desc
          (filter (\<lambda>p. publicly_visible d now p \<and> publicly_visible d now' p)
             (get_annotated_posts d (posts d)))" for u
    unfolding HomePageView_queryset order_by_pub_date_desc_def filter_sort filter_filter
    by (rule arg_cong[where f = "sort_key (\<lambda>p. - pub_date p)"], rule filter_cong)
       (auto simp: publicly_visible_def)
  then show "filter (\<lambda>p. pub_date p \<le> now) (HomePageView_get_queryset d v now now')
     = filter (\<lambda>p. pub_date p \<le> now) (HomePageView_get_queryset d v2 now now')"
    by simp
qed

text \<open>
  The two readings of the clock in one request are taken one after the other. With the
  first reading 7 and the second 9, Bob's post dated 8 is in Bob's home listing and not in
  the anonymous one, so the listing depends on the viewer.
\<close>

theorem home_listing_by_viewer_counterexample:
  "map post.truncate (HomePageView_get_queryset sample_db (AuthUser bob) 7 9)
     = [bob_post, alice_post]
   \<and> map post.truncate (HomePageView_get_queryset sample_db AnonymousUser 7 9) = [alice_post]
   \<and> HomePageView_get_queryset sample_db (AuthUser bob) 7 9
     \<noteq> HomePageView_get_queryset sample_db AnonymousUser 7 9"
proof -
  have bob: "map post.truncate (HomePageView_get_queryset sample_db (AuthUser bob) 7 9)
     = [bob_post, alice_post]"
    by code_simp
  have anonymous:
    "map post.truncate (HomePageView_get_queryset sample_db AnonymousUser 7 9) = [alice_post]"
    by code_simp
  have "HomePageView_get_queryset sample_db (AuthUser bob) 7 9
     \<noteq> HomePageView_get_queryset sample_db AnonymousUser 7 9"
  proof
    assume "HomePageView_get_queryset sample_db (AuthUser bob) 7 9
          = HomePageView_get_queryset sample_db AnonymousUser 7 9"
    with bob anonymous have "[bob_post, alice_post] = [alice_post]" by simp
    then show False by simp
  qed
  with bob anonymous show ?thesis by (simp only: simp_thms)
qed

text \<open>
  C10. Authenticating never hides a post: every post that the filter of published posts
  returns is also returned by the visibility filter, whoever the viewer is.
\<close>

theorem visible_monotone:
  "set (get_published_posts d queryset now) \<subseteq> set (get_visible_posts d queryset v now)"
  by (auto simp: get_published_posts_filter get_visible_posts_filter)


section \<open>Properties of the detail view\<close>

text \<open>
  C4. For a post of the store and any viewer, the detail view renders the post (with its
  comments) if and only if the post is published or the viewer is its author; in every
  other case the response is \<^verbatim>\<open>Http404\<close>, never another error or a redirect. Neither
  the date of the post nor its category takes part in the decision. Primary keys of posts
  are unique in the store.
\<close>

theorem detail_view_gate:
  assumes "distinct (map post_pk (posts d))" and "p \<in> set (posts d)"
  shows "PostDetailView_dispatch d v (post_pk p) =
           (if is_published p \<or> same_user (author_id p) v
            then TemplateResponse (p, filter (\<lambda>c. comment_post_id c = post_pk p) (comments d))
            else Raise Http404)"
proof -
  from assms have "get_object_or_404 (posts d) (\<lambda>x. post_pk x = post_pk p) = Inr p"
    by (rule get_object_or_404_unique)
  then show ?thesis
    by (simp add: PostDetailView_dispatch_def DetailView_get_def
        PostDetailView_get_context_data_def)
qed

theorem detail_view_gate_witness:
  "PostDetailView_dispatch sample_db (AuthUser bob) (post_pk bob_draft)
     = TemplateResponse (bob_draft, [])
   \<and> PostDetailView_dispatch sample_db (AuthUser alice) (post_pk bob_draft) = Raise Http404
   \<and> PostDetailView_dispatch sample_db AnonymousUser (post_pk bob_draft) = Raise Http404
   \<and> PostDetailView_dispatch sample_db AnonymousUser (post_pk alice_hidden_post)
     = TemplateResponse (alice_hidden_post, [])"
proof -
  have keys: "distinct (map post_pk (posts sample_db))"
    by (simp add: sample_defs)
  have draft: "bob_draft \<in> set (posts sample_db)"
    and hidden: "alice_hidden_post \<in> set (posts sample_db)"
    by (simp_all add: sample_db_def)
  show ?thesis
    using detail_view_gate[OF keys draft, of "AuthUser bob"]
      detail_view_gate[OF keys draft, of "AuthUser alice"]
      detail_view_gate[OF keys draft, of AnonymousUser]
      detail_view_gate[OF keys hidden, of AnonymousUser]
    by (simp add: sample_defs)
qed

section \<open>Properties of the views that change the store\<close>

text \<open>
  C5. When an authenticated viewer who is not the author asks to update or delete a post
  or a comment of the store, the store stays as it is, whatever the generic view would
  have done, and the response is a redirect: to the detail page of the post for a post
  update, to the site index for a post delete, and to the detail page of the parent post
  for a comment update or delete. Primary keys are unique in each table.
\<close>

theorem ownership_guard:
  "(distinct (map post_pk (posts d)) \<longrightarrow> r \<in> set (posts d) \<longrightarrow> author_id r \<noteq> user_pk v \<longrightarrow>
      PostUpdateView_dispatch update_handler d (AuthUser v) (post_pk r)
        = (HttpResponseRedirect (PostDetail (post_pk r)), d)
    \<and> PostDeleteView_dispatch delete_handler d (AuthUser v) (post_pk r)
        = (HttpResponseRedirect Index, d))
   \<and> (distinct (map comment_pk (comments d)) \<longrightarrow> c \<in> set (comments d) \<longrightarrow>
      comment_author_id c \<noteq> user_pk v \<longrightarrow>
      CommentChangeView_dispatch change_handler d (AuthUser v) (comment_pk c)
        = (HttpResponseRedirect (PostDetail (comment_post_id c)), d))"
proof (intro conjI impI)
  assume "distinct (map post_pk (posts d))" and "r \<in> set (posts d)"
  then have r: "get_object_or_404 (posts d) (\<lambda>x. post_pk x = post_pk r) = Inr r"
    by (rule get_object_or_404_unique)
  assume "author_id r \<noteq> user_pk v"
  with r show "PostUpdateView_dispatch update_handler d (AuthUser v) (post_pk r)
        = (HttpResponseRedirect (PostDetail (post_pk r)), d)"
    and "PostDeleteView_dispatch delete_handler d (AuthUser v) (post_pk r)
        = (HttpResponseRedirect Index, d)"
    by (simp_all add: PostUpdateView_dispatch_def PostDeleteView_dispatch_def)
next
  assume "distinct (map comment_pk (comments d))" and "c \<in> set (comments d)"
  then have c: "get_object_or_404 (comments d) (\<lambda>x. comment_pk x = comment_pk c) = Inr c"
    by (rule get_object_or_404_unique)
  assume "comment_author_id c \<noteq> user_pk v"
  with c show "CommentChangeView_dispatch change_handler d (AuthUser v) (comment_pk c)
        = (HttpResponseRedirect (PostDetail (comment_post_id c)), d)"
    by (simp add: CommentChangeView_dispatch_def)
qed

theorem ownership_guard_witness:
  "PostUpdateView_dispatch wipe_posts sample_db (AuthUser bob) (post_pk alice_post)
     = (HttpResponseRedirect (PostDetail (post_pk alice_post)), sample_db)
   \<and> PostDeleteView_dispatch wipe_posts sample_db (AuthUser bob) (post_pk alice_post)
     = (HttpResponseRedirect Index, sample_db)
   \<and> CommentChangeView_dispatch wipe_comments sample_db (AuthUser alice) (comment_pk bob_comment)
     = (HttpResponseRedirect (PostDetail (comment_post_id bob_comment)), sample_db)"
proof -
  have "distinct (map post_pk (posts sample_db))" and "alice_post \<in> set (posts sample_db)"
    and "author_id alice_post \<noteq> user_pk bob"
    and "distinct (map comment_pk (comments sample_db))"
    and "bob_comment \<in> set (comments sample_db)"
    and "comment_author_id bob_comment \<noteq> user_pk alice"
    by (simp_all add: sample_defs)
  then show ?thesis
    using ownership_guard[where d = sample_db and r = alice_post and v = bob
        and update_handler = wipe_posts and delete_handler = wipe_posts]
      ownership_guard[where d = sample_db and c = bob_comment and v = alice
        and change_handler = wipe_comments]
    by blast
qed

text \<open>The same handler does reach the store when the author asks.\<close>

lemma PostDeleteView_dispatch_author:
  "PostDeleteView_dispatch wipe_posts sample_db (AuthUser alice) (post_pk alice_post)
     = (HttpResponseRedirect Index, sample_db\<lparr>posts := []\<rparr>)"
  by (simp add: PostDeleteView_dispatch_def get_object_or_404_def LoginRequiredMixin_dispatch_def
        wipe_posts_def sample_defs)





end
